theory Spec2Isabelle
  imports Main "HOL-Library.AList" "HOL-Library.Sublist"
begin

section \<open>Values and errors\<close>

text \<open>
  The configuration tree of \<^verbatim>\<open>kaptan/__init__.py\<close> is a Python object built from
  dicts, lists and scalars. A dict is an association list in insertion order with string
  keys (lookup reads the first entry of a key, update replaces it in place or appends a
  new entry at the end, as a Python dict does). Numbers are represented by integers; a
  float behaves like an integer in every operation below (it is neither a Mapping, a
  Sequence nor a list, and supports neither subscription nor \<^verbatim>\<open>in\<close>).
  The tree is taken to be a tree: no list or dict object occurs at two places of it.
\<close>

datatype pyval =
    VNone
  | VBool bool
  | VInt int
  | VStr string
  | VList "pyval list"
  | VDict "(string \<times> pyval) list"

text \<open>
  Python exceptions as values. \<open>RuntimeError\<close> carries its message, since the source
  raises it with two different meanings.
\<close>

datatype error =
    KeyError
  | ValueError
  | IndexError
  | TypeError
  | AttributeError
  | IOError
  | RuntimeError string

text \<open>\<^verbatim>\<open>isinstance(x, Mapping)\<close>, \<^verbatim>\<open>isinstance(x, Sequence)\<close> (a Python \<^verbatim>\<open>str\<close>
  is a \<^verbatim>\<open>collections.Sequence\<close>) and \<^verbatim>\<open>isinstance(x, list)\<close>.\<close>

fun is_Mapping :: "pyval \<Rightarrow> bool" where
  "is_Mapping (VDict _) = True"
| "is_Mapping _ = False"

fun is_Sequence :: "pyval \<Rightarrow> bool" where
  "is_Sequence (VList _) = True"
| "is_Sequence (VStr _) = True"
| "is_Sequence _ = False"

fun is_list :: "pyval \<Rightarrow> bool" where
  "is_list (VList _) = True"
| "is_list _ = False"

section \<open>Python built-ins used by the source\<close>

text \<open>\<^verbatim>\<open>key.split('.')\<close>: the result is never empty.\<close>

fun split_dot :: "string \<Rightarrow> string list" where
  "split_dot [] = [[]]"
| "split_dot (c # cs) =
     (if c = CHR ''.'' then [] # split_dot cs
      else (case split_dot cs of [] \<Rightarrow> [[c]] | w # ws \<Rightarrow> (c # w) # ws))"

text \<open>
  \<^verbatim>\<open>int(chunk)\<close> on a string (Python 3): surrounding white space is stripped, an
  optional sign follows, then decimal digits, single underscores allowed between digits.
  \<open>None\<close> stands for \<^verbatim>\<open>ValueError\<close>. A \<open>char\<close> is a code point below 256. The
  white space that \<^verbatim>\<open>int\<close> strips there is tab, line feed, vertical tab, form feed,
  carriage return and space (9 to 13 and 32), and, beyond ASCII, U+0085 and U+00A0; the
  separators 28 to 31 are not stripped. The only decimal digits below 256 are 0 to 9.
\<close>

definition is_space :: "char \<Rightarrow> bool" where
  "is_space c =
     (let n = (of_char c :: nat) in (9 \<le> n \<and> n \<le> 13) \<or> n = 32 \<or> n = 133 \<or> n = 160)"

definition is_digit :: "char \<Rightarrow> bool" where
  "is_digit c = (let n = (of_char c :: nat) in 48 \<le> n \<and> n \<le> 57)"

definition digit_val :: "char \<Rightarrow> int" where
  "digit_val c = int (of_char c) - 48"

fun digits_acc :: "bool \<Rightarrow> int \<Rightarrow> string \<Rightarrow> int option" where
  "digits_acc prev acc [] = (if prev then Some acc else None)"
| "digits_acc prev acc (c # cs) =
     (if is_digit c then digits_acc True (10 * acc + digit_val c) cs
      else if c = CHR ''_'' \<and> prev \<and> cs \<noteq> [] then digits_acc False acc cs
      else None)"

definition strip :: "string \<Rightarrow> string" where
  "strip s = rev (dropWhile is_space (rev (dropWhile is_space s)))"

definition py_int :: "string \<Rightarrow> int option" where
  "py_int s =
     (case strip s of
        [] \<Rightarrow> None
      | c # cs \<Rightarrow>
          if c = CHR ''-'' then map_option uminus (digits_acc False 0 cs)
          else if c = CHR ''+'' then digits_acc False 0 cs
          else digits_acc False 0 (c # cs))"

text \<open>\<^verbatim>\<open>xs[i]\<close> with an integer subscript: a negative index counts from the end;
  \<open>None\<close> stands for \<^verbatim>\<open>IndexError\<close>.\<close>

definition seq_index :: "'a list \<Rightarrow> int \<Rightarrow> 'a option" where
  "seq_index xs i =
     (let n = int (length xs); j = (if i < 0 then i + n else i)
      in if 0 \<le> j \<and> j < n then Some (xs ! nat j) else None)"

text \<open>\<^verbatim>\<open>xs.pop(i)\<close>: the list without the element at \<open>i\<close>;
  \<open>None\<close> stands for \<^verbatim>\<open>IndexError\<close>.\<close>

definition list_pop :: "'a list \<Rightarrow> int \<Rightarrow> 'a list option" where
  "list_pop xs i =
     (let n = int (length xs); j = (if i < 0 then i + n else i)
      in if 0 \<le> j \<and> j < n then Some (take (nat j) xs @ drop (Suc (nat j)) xs) else None)"

text \<open>\<^verbatim>\<open>d[k]\<close> with a string subscript \<open>k\<close>: only a dict supports it.\<close>

definition getitem :: "pyval \<Rightarrow> string \<Rightarrow> error + pyval" where
  "getitem d k =
     (case d of
        VDict kvs \<Rightarrow> (case map_of kvs k of None \<Rightarrow> Inl KeyError | Some v \<Rightarrow> Inr v)
      | _ \<Rightarrow> Inl TypeError)"

text \<open>\<^verbatim>\<open>d[k] = v\<close> with a string subscript: the object after the statement, and the
  exception if one is raised.\<close>

definition setitem :: "pyval \<Rightarrow> string \<Rightarrow> pyval \<Rightarrow> error option \<times> pyval" where
  "setitem d k v =
     (case d of
        VDict kvs \<Rightarrow> (None, VDict (AList.update k v kvs))
      | _ \<Rightarrow> (Some TypeError, d))"

text \<open>\<^verbatim>\<open>del d[k]\<close> with a string subscript.\<close>

definition delitem :: "pyval \<Rightarrow> string \<Rightarrow> error option \<times> pyval" where
  "delitem d k =
     (case d of
        VDict kvs \<Rightarrow>
          (case map_of kvs k of
             None \<Rightarrow> (Some KeyError, d)
           | Some _ \<Rightarrow> (None, VDict (AList.delete k kvs)))
      | _ \<Rightarrow> (Some TypeError, d))"

text \<open>\<^verbatim>\<open>k in x\<close> for a string \<open>k\<close>: key membership in a dict, element membership in a
  list, substring test in a string, \<^verbatim>\<open>TypeError\<close> otherwise.\<close>

definition contains :: "pyval \<Rightarrow> string \<Rightarrow> error + bool" where
  "contains x k =
     (case x of
        VDict kvs \<Rightarrow> Inr (map_of kvs k \<noteq> None)
      | VList xs \<Rightarrow> Inr (VStr k \<in> set xs)
      | VStr s \<Rightarrow> Inr (sublist k s)
      | _ \<Rightarrow> Inl TypeError)"

text \<open>
  The source mutates the object that \<^verbatim>\<open>current_data[chunk]\<close> refers to; in the tree the
  parent then holds the mutated child at the same key. \<open>store\<close> writes the child back.
\<close>

definition store :: "pyval \<Rightarrow> string \<Rightarrow> pyval \<Rightarrow> pyval" where
  "store d k v = (case d of VDict kvs \<Rightarrow> VDict (AList.update k v kvs) | _ \<Rightarrow> d)"

section \<open>Handlers\<close>

datatype handler = JsonHandler | DictHandler | YamlHandler | PyFileHandler | IniHandler

definition HANDLER_EXT :: "string \<Rightarrow> string option" where
  "HANDLER_EXT = map_of
     [(''ini'', ''ini''), (''conf'', ''ini''), (''yaml'', ''yaml''), (''yml'', ''yaml''),
      (''json'', ''json''), (''py'', ''file'')]"

definition HANDLER_MAP :: "string \<Rightarrow> handler option" where
  "HANDLER_MAP = map_of
     [(''json'', JsonHandler), (''dict'', DictHandler), (''yaml'', YamlHandler),
      (''file'', PyFileHandler), (''ini'', IniHandler)]"

text \<open>
  What the source takes from its surroundings: the file system
  (\<^verbatim>\<open>os.path.isfile\<close>, \<^verbatim>\<open>open(value).read()\<close>,
  \<^verbatim>\<open>os.path.abspath(os.path.expanduser(value))\<close>) and the \<^verbatim>\<open>load\<close> and
  \<^verbatim>\<open>dump\<close> methods of the format handlers, which are not part of the file under
  verification and are parameters here.
\<close>

record env =
  isfile :: "string \<Rightarrow> bool"
  read_file :: "string \<Rightarrow> string"
  abspath :: "string \<Rightarrow> string"
  load_raw :: "handler \<Rightarrow> pyval \<Rightarrow> error + pyval"
  dump_raw :: "handler \<Rightarrow> pyval \<Rightarrow> error + pyval"

text \<open>
  Modelled from the spec: the class \<^verbatim>\<open>DictHandler\<close> of
  \<^verbatim>\<open>handlers/dict_handler.py\<close> is missing from the sources; the spec calls it the
  generic mapping handler, a pass-through in both directions. The other handlers are
  taken from the environment.
\<close>

definition handler_load :: "env \<Rightarrow> handler \<Rightarrow> pyval \<Rightarrow> error + pyval" where
  "handler_load e h data = (if h = DictHandler then Inr data else load_raw e h data)"

definition handler_dump :: "env \<Rightarrow> handler \<Rightarrow> pyval \<Rightarrow> error + pyval" where
  "handler_dump e h data = (if h = DictHandler then Inr data else dump_raw e h data)"

section \<open>The class Kaptan\<close>

record kaptan =
  configuration_data :: pyval
  handler :: "handler option"

text \<open>\<^verbatim>\<open>Kaptan.__init__(handler=None)\<close>: an empty or absent handler name leaves the
  handler unset; an unknown name raises \<^verbatim>\<open>KeyError\<close>.\<close>

definition init :: "string option \<Rightarrow> error + kaptan" where
  "init h =
     (case h of
        None \<Rightarrow> Inr \<lparr>configuration_data = VDict [], handler = None\<rparr>
      | Some name \<Rightarrow>
          if name = [] then Inr \<lparr>configuration_data = VDict [], handler = None\<rparr>
          else (case HANDLER_MAP name of
                  None \<Rightarrow> Inl KeyError
                | Some c \<Rightarrow> Inr \<lparr>configuration_data = VDict [], handler = Some c\<rparr>))"

text \<open>\<^verbatim>\<open>Kaptan.upsert\<close>: \<^verbatim>\<open>self.configuration_data.update({key: value})\<close>; only a dict
  has the method \<^verbatim>\<open>update\<close>.\<close>

definition upsert :: "kaptan \<Rightarrow> string \<Rightarrow> pyval \<Rightarrow> error option \<times> kaptan" where
  "upsert self key val =
     (case configuration_data self of
        VDict kvs \<Rightarrow> (None, self\<lparr>configuration_data := VDict (AList.update key val kvs)\<rparr>)
      | _ \<Rightarrow> (Some AttributeError, self))"

subsection \<open>get\<close>

text \<open>The loop of \<^verbatim>\<open>Kaptan._get\<close> over the chunks of the key.\<close>

fun get_loop :: "pyval \<Rightarrow> string list \<Rightarrow> error + pyval" where
  "get_loop current_data [] = Inr current_data"
| "get_loop current_data (chunk # chunks) =
     (case current_data of
        VDict kvs \<Rightarrow>
          (case map_of kvs chunk of
             None \<Rightarrow> Inl KeyError
           | Some v \<Rightarrow> get_loop v chunks)
      | VList xs \<Rightarrow>
          (case py_int chunk of
             None \<Rightarrow> Inl ValueError
           | Some i \<Rightarrow>
               (case seq_index xs i of
                  None \<Rightarrow> Inl IndexError
                | Some v \<Rightarrow> get_loop v chunks))
      | VStr s \<Rightarrow>
          (case py_int chunk of
             None \<Rightarrow> Inl ValueError
           | Some i \<Rightarrow>
               (case seq_index s i of
                  None \<Rightarrow> Inl IndexError
                | Some c \<Rightarrow> get_loop (VStr [c]) chunks))
      | _ \<Rightarrow> Inr current_data)"

definition underscore_get :: "kaptan \<Rightarrow> string \<Rightarrow> error + pyval" where
  "underscore_get self key = get_loop (configuration_data self) (split_dot key)"

text \<open>\<^verbatim>\<open>Kaptan.export(handler=None)\<close>; the keyword options are passed through to the
  handler and belong to \<open>dump_raw\<close>. A store without a handler has \<^verbatim>\<open>None\<close> in its
  place, and \<^verbatim>\<open>None.dump\<close> raises \<^verbatim>\<open>AttributeError\<close>.\<close>

definition export :: "env \<Rightarrow> kaptan \<Rightarrow> string option \<Rightarrow> (error + pyval) \<times> kaptan" where
  "export e self h =
     (let handler_class =
            (case h of
               None \<Rightarrow> Inr (handler self)
             | Some name \<Rightarrow>
                 if name = [] then Inr (handler self)
                 else (case HANDLER_MAP name of None \<Rightarrow> Inl KeyError | Some c \<Rightarrow> Inr (Some c)))
      in case handler_class of
           Inl err \<Rightarrow> (Inl err, self)
         | Inr None \<Rightarrow> (Inl AttributeError, self)
         | Inr (Some c) \<Rightarrow> (handler_dump e c (configuration_data self), self))"

text \<open>\<^verbatim>\<open>Kaptan.get(key=None, default=SENTINEL)\<close>: \<open>dflt = None\<close> is the sentinel
  (no default given).\<close>

definition get :: "env \<Rightarrow> kaptan \<Rightarrow> string option \<Rightarrow> pyval option \<Rightarrow> (error + pyval) \<times> kaptan" where
  "get e self key dflt =
     (if key = None \<or> key = Some [] then export e self (Some ''dict'')
      else
        (case underscore_get self (the key) of
           Inr v \<Rightarrow> (Inr v, self)
         | Inl err \<Rightarrow>
             if err = KeyError \<or> err = ValueError \<or> err = IndexError then
               (case dflt of
                  Some d \<Rightarrow> (Inr d, self)
                | None \<Rightarrow> (Inl err, self))
             else (Inl err, self)))"

subsection \<open>add\<close>

text \<open>The last \<^verbatim>\<open>try\<close> block of \<^verbatim>\<open>Kaptan.add\<close>, at the container reached.\<close>

definition add_target ::
  "string \<Rightarrow> pyval \<Rightarrow> bool \<Rightarrow> bool \<Rightarrow> pyval \<Rightarrow> error option \<times> pyval" where
  "add_target new_key val replace is_key_exist current_data =
     (if replace then setitem current_data new_key val
      else
        (case getitem current_data new_key of
           Inl err \<Rightarrow>
             if err = KeyError then setitem current_data new_key val
             else (Some err, current_data)
         | Inr old \<Rightarrow>
             (case old of
                VList xs \<Rightarrow> (None, store current_data new_key (VList (xs @ [val])))
              | _ \<Rightarrow>
                  if is_key_exist
                  then (Some (RuntimeError (''Key '' @ new_key @ '' already exist'')), current_data)
                  else (None, current_data))))"

text \<open>The loop of \<^verbatim>\<open>Kaptan.add\<close> over the chunks before the last one. It returns the
  exception, if any, and the object \<open>current_data\<close> as the call leaves it.\<close>

fun add_loop ::
  "string \<Rightarrow> pyval \<Rightarrow> bool \<Rightarrow> string list \<Rightarrow> bool \<Rightarrow> pyval \<Rightarrow> error option \<times> pyval" where
  "add_loop new_key val replace [] is_key_exist current_data =
     add_target new_key val replace is_key_exist current_data"
| "add_loop new_key val replace (chunk # chunks) is_key_exist current_data =
     (case getitem current_data chunk of
        Inl err \<Rightarrow>
          if err = KeyError then
            (case add_loop new_key val replace chunks is_key_exist (VDict []) of
               (r, sub) \<Rightarrow> (r, store current_data chunk sub))
          else (Some err, current_data)
      | Inr sub \<Rightarrow>
          if \<not> replace then
            (case contains sub new_key of
               Inl err \<Rightarrow> (Some err, current_data)
             | Inr b \<Rightarrow>
                 (case add_loop new_key val replace chunks (is_key_exist \<or> b) sub of
                    (r, sub') \<Rightarrow> (r, store current_data chunk sub')))
          else
            (case add_loop new_key val replace chunks is_key_exist sub of
               (r, sub') \<Rightarrow> (r, store current_data chunk sub')))"

definition add :: "kaptan \<Rightarrow> string \<Rightarrow> pyval \<Rightarrow> bool \<Rightarrow> error option \<times> kaptan" where
  "add self key val replace =
     (let keys = split_dot key;
          res = (case keys of
                   [] \<Rightarrow> (Some IndexError, configuration_data self)
                 | k # ks \<Rightarrow>
                     if length keys > 1
                     then add_loop (last keys) val replace (butlast keys) False
                            (configuration_data self)
                     else add_loop k val replace [] False (configuration_data self))
      in (fst res, self\<lparr>configuration_data := snd res\<rparr>))"

subsection \<open>remove\<close>

text \<open>The statements of \<^verbatim>\<open>Kaptan.remove\<close> after its loop; \<open>index = None\<close> is an index
  that is not an integer (the default \<^verbatim>\<open>None\<close>).\<close>

definition remove_target :: "string \<Rightarrow> int option \<Rightarrow> pyval \<Rightarrow> error option \<times> pyval" where
  "remove_target exact_key index current_data =
     (case index of
        None \<Rightarrow> delitem current_data exact_key
      | Some i \<Rightarrow>
          (case getitem current_data exact_key of
             Inl err \<Rightarrow> (Some err, current_data)
           | Inr old \<Rightarrow>
               (case old of
                  VList xs \<Rightarrow>
                    (case list_pop xs i of
                       None \<Rightarrow> (Some IndexError, current_data)
                     | Some xs' \<Rightarrow> (None, store current_data exact_key (VList xs')))
                | _ \<Rightarrow> delitem current_data exact_key)))"

fun remove_loop ::
  "string \<Rightarrow> int option \<Rightarrow> string list \<Rightarrow> pyval \<Rightarrow> error option \<times> pyval" where
  "remove_loop exact_key index [] current_data = remove_target exact_key index current_data"
| "remove_loop exact_key index (chunk # chunks) current_data =
     (case getitem current_data chunk of
        Inl err \<Rightarrow> (Some err, current_data)
      | Inr sub \<Rightarrow>
          (case remove_loop exact_key index chunks sub of
             (r, sub') \<Rightarrow> (r, store current_data chunk sub')))"

text \<open>In the source the loop runs over \<open>keys\<close> as the \<^verbatim>\<open>if\<close> before it left it: without
  its last element when there are several, and whole when there is one.\<close>

definition remove :: "kaptan \<Rightarrow> string \<Rightarrow> int option \<Rightarrow> error option \<times> kaptan" where
  "remove self key index =
     (let keys = split_dot key;
          res = (case keys of
                   [] \<Rightarrow> (Some IndexError, configuration_data self)
                 | k # ks \<Rightarrow>
                     if length keys > 1
                     then remove_loop (last keys) index (butlast keys) (configuration_data self)
                     else remove_loop k index keys (configuration_data self))
      in (fst res, self\<lparr>configuration_data := snd res\<rparr>))"

subsection \<open>import_config\<close>

text \<open>The argument of \<^verbatim>\<open>import_config\<close> is a native dict or a string.\<close>

datatype source = Native "(string \<times> pyval) list" | Raw string

text \<open>\<^verbatim>\<open>os.path.splitext(value)[1][1:]\<close> (POSIX): the text after the last dot of the
  last path component, leading dots of the component not counted.\<close>

definition splitext_ext :: "string \<Rightarrow> string" where
  "splitext_ext p =
     (let base = rev (takeWhile (\<lambda>c. c \<noteq> CHR ''/'') (rev p));
          name = dropWhile (\<lambda>c. c = CHR ''.'') base
      in if CHR ''.'' \<in> set name then rev (takeWhile (\<lambda>c. c \<noteq> CHR ''.'') (rev name)) else [])"

definition endswith :: "string \<Rightarrow> string \<Rightarrow> bool" where
  "endswith s sfx = (length sfx \<le> length s \<and> drop (length s - length sfx) s = sfx)"

definition is_python_file :: "env \<Rightarrow> string \<Rightarrow> bool" where
  "is_python_file e v = (splitext_ext v = ''py'' \<or> isfile e (v @ ''.py''))"

text \<open>The last two statements of \<^verbatim>\<open>import_config\<close>:
  \<^verbatim>\<open>self.configuration_data = self.handler.load(data)\<close>.\<close>

definition load_into :: "env \<Rightarrow> kaptan \<Rightarrow> pyval \<Rightarrow> error option \<times> kaptan" where
  "load_into e self data =
     (case handler self of
        None \<Rightarrow> (Some AttributeError, self)
      | Some h \<Rightarrow>
          (case handler_load e h data of
             Inl err \<Rightarrow> (Some err, self)
           | Inr t \<Rightarrow> (None, self\<lparr>configuration_data := t\<rparr>)))"

definition import_config :: "env \<Rightarrow> kaptan \<Rightarrow> source \<Rightarrow> error option \<times> kaptan" where
  "import_config e self v =
     (case v of
        Native kvs \<Rightarrow> load_into e (self\<lparr>handler := Some DictHandler\<rparr>) (VDict kvs)
      | Raw s \<Rightarrow>
          if isfile e s \<and> \<not> is_python_file e s then
            (if handler self = None then
               (case HANDLER_EXT (splitext_ext s) of
                  None \<Rightarrow> (Some (RuntimeError ''Unable to determine handler''), self)
                | Some key \<Rightarrow>
                    (case HANDLER_MAP key of
                       None \<Rightarrow> (Some (RuntimeError ''Unable to determine handler''), self)
                     | Some h \<Rightarrow> load_into e (self\<lparr>handler := Some h\<rparr>) (VStr (read_file e s))))
             else load_into e self (VStr (read_file e s)))
          else if is_python_file e s then
            (let self' = self\<lparr>handler := Some PyFileHandler\<rparr>;
                 s' = (if endswith s ''.py'' then s else s @ ''.py'');
                 data = abspath e s'
             in if \<not> isfile e data then (Some IOError, self')
                else load_into e self' (VStr data))
          else if handler self = None then
            (Some (RuntimeError ''Unable to determine handler''), self)
          else load_into e self (VStr s))"

section \<open>Notions used in the statements\<close>

text \<open>An environment without files, whose foreign handlers reject every input.\<close>

definition empty_fs :: env where
  "empty_fs =
     \<lparr>isfile = (\<lambda>_. False), read_file = (\<lambda>_. []), abspath = (\<lambda>p. p),
      load_raw = (\<lambda>_ _. Inl ValueError), dump_raw = (\<lambda>_ _. Inl ValueError)\<rparr>"

text \<open>The store holding tree \<open>t\<close>, no handler selected.\<close>

definition store_of :: "pyval \<Rightarrow> kaptan" where
  "store_of t = \<lparr>configuration_data = t, handler = None\<rparr>"


text \<open>
  Every node that exists along the chunks \<open>cs\<close>, walked from \<open>t\<close> by dict lookup, is a
  dict, the node after the last chunk included; the walk ends at the first missing key.
\<close>

fun mappings_along :: "pyval \<Rightarrow> string list \<Rightarrow> bool" where
  "mappings_along t [] = is_Mapping t"
| "mappings_along t (c # cs) =
     (case t of
        VDict kvs \<Rightarrow> (case map_of kvs c of None \<Rightarrow> True | Some sub \<Rightarrow> mappings_along sub cs)
      | _ \<Rightarrow> False)"

text \<open>The chain of one-entry dicts \<^verbatim>\<open>{c1: {c2: ... {k: v}}}\<close>.\<close>

fun nest :: "string list \<Rightarrow> string \<Rightarrow> pyval \<Rightarrow> pyval" where
  "nest [] k v = VDict [(k, v)]"
| "nest (c # cs) k v = VDict [(c, nest cs k v)]"

section \<open>Splitting keys and walking the tree\<close>

lemma split_dot_not_Nil: "split_dot s \<noteq> []"
  by (induction s) (auto split: list.splits)

lemma split_dot_append: "split_dot (p @ CHR ''.'' # q) = split_dot p @ split_dot q"
  by (induction p) (auto split: list.splits simp: split_dot_not_Nil)

lemma py_int_digit: "py_int ''0'' = Some 0" "py_int ''1'' = Some 1" "py_int ''5'' = Some 5"
  by (simp_all add: py_int_def strip_def is_space_def is_digit_def digit_val_def)

lemma get_loop_scalar:
  "\<not> is_Mapping s \<Longrightarrow> \<not> is_Sequence s \<Longrightarrow> get_loop s cs = Inr s"
  by (cases cs; cases s) simp_all

text \<open>A walk that has returned \<open>v\<close> continues from \<open>v\<close> when more chunks follow; this
  covers the walk cut short at a scalar, which returns that scalar again.\<close>

lemma get_loop_append:
  "get_loop t xs = Inr v \<Longrightarrow> get_loop t (xs @ ys) = get_loop v ys"
proof (induction xs arbitrary: t)
  case Nil
  then show ?case by simp
next
  case (Cons c cs)
  show ?case
  proof (cases t)
    case (VDict kvs)
    with Cons show ?thesis by (auto split: option.splits)
  next
    case (VList xs)
    with Cons show ?thesis by (auto split: option.splits)
  next
    case (VStr s)
    with Cons show ?thesis by (auto split: option.splits)
  next
    case VNone
    with Cons.prems have "v = t" by simp
    with VNone show ?thesis by (cases ys) simp_all
  next
    case (VBool b)
    with Cons.prems have "v = t" by simp
    with VBool show ?thesis by (cases ys) simp_all
  next
    case (VInt i)
    with Cons.prems have "v = t" by simp
    with VInt show ?thesis by (cases ys) simp_all
  qed
qed

section \<open>The worked example\<close>

text \<open>
  Claim C1. Starting from the tree \<^verbatim>\<open>{"a": {"b": [1, 2]}}\<close>: \<^verbatim>\<open>get("a.b.1")\<close> returns 2;
  \<^verbatim>\<open>get("a.b.5", default=-1)\<close> returns -1; \<^verbatim>\<open>add("a.b", 3)\<close> without replace turns the
  tree into \<^verbatim>\<open>{"a": {"b": [1, 2, 3]}}\<close>; then \<^verbatim>\<open>remove("a.b", index=0)\<close> gives
  \<^verbatim>\<open>{"a": {"b": [2, 3]}}\<close>; then \<^verbatim>\<open>remove("a.b")\<close> gives \<^verbatim>\<open>{"a": {}}\<close>. This holds
  in every environment and whatever handler the store has selected.
\<close>

theorem worked_example:
  "get e \<lparr>configuration_data = VDict [(''a'', VDict [(''b'', VList [VInt 1, VInt 2])])], handler = h\<rparr>
       (Some ''a.b.1'') None
     = (Inr (VInt 2),
        \<lparr>configuration_data = VDict [(''a'', VDict [(''b'', VList [VInt 1, VInt 2])])], handler = h\<rparr>)
   \<and> get e \<lparr>configuration_data = VDict [(''a'', VDict [(''b'', VList [VInt 1, VInt 2])])], handler = h\<rparr>
       (Some ''a.b.5'') (Some (VInt (- 1)))
     = (Inr (VInt (- 1)),
        \<lparr>configuration_data = VDict [(''a'', VDict [(''b'', VList [VInt 1, VInt 2])])], handler = h\<rparr>)
   \<and> add \<lparr>configuration_data = VDict [(''a'', VDict [(''b'', VList [VInt 1, VInt 2])])], handler = h\<rparr>
       ''a.b'' (VInt 3) False
     = (None,
        \<lparr>configuration_data = VDict [(''a'', VDict [(''b'', VList [VInt 1, VInt 2, VInt 3])])], handler = h\<rparr>)
   \<and> remove \<lparr>configuration_data = VDict [(''a'', VDict [(''b'', VList [VInt 1, VInt 2, VInt 3])])], handler = h\<rparr>
       ''a.b'' (Some 0)
     = (None,
        \<lparr>configuration_data = VDict [(''a'', VDict [(''b'', VList [VInt 2, VInt 3])])], handler = h\<rparr>)
   \<and> remove \<lparr>configuration_data = VDict [(''a'', VDict [(''b'', VList [VInt 2, VInt 3])])], handler = h\<rparr>
       ''a.b'' None
     = (None, \<lparr>configuration_data = VDict [(''a'', VDict [])], handler = h\<rparr>)"
proof -
  have keys: "split_dot ''a.b.1'' = [''a'', ''b'', ''1'']"
    "split_dot ''a.b.5'' = [''a'', ''b'', ''5'']" "split_dot ''a.b'' = [''a'', ''b'']"
    by simp_all
  show ?thesis
    by (simp add: get_def underscore_get_def add_def remove_def keys py_int_digit seq_index_def
        getitem_def contains_def add_target_def remove_target_def store_def list_pop_def
        delitem_def)
qed

section \<open>Reading: get\<close>





text \<open>The same in terms of paths: once the walk along \<open>p\<close> has returned a scalar, every
  longer path \<open>p.q\<close> returns it too.\<close>

lemma get_past_scalar:
  assumes "underscore_get self p = Inr s" and "\<not> is_Mapping s" and "\<not> is_Sequence s"
  shows "get e self (Some (p @ CHR ''.'' # q)) dflt = (Inr s, self)"
proof -
  have "underscore_get self (p @ CHR ''.'' # q) = get_loop s (split_dot q)"
    using assms(1) by (simp add: underscore_get_def split_dot_append get_loop_append)
  with assms(2,3) show ?thesis
    by (simp add: get_def get_loop_scalar)
qed

text \<open>
  Claim C6. For a non-empty path and a default \<open>d\<close>, \<^verbatim>\<open>get\<close> returns the default (that is,
  returns \<open>d\<close> whichever \<open>d\<close> is given) exactly when the walk fails with \<^verbatim>\<open>KeyError\<close>
  (NotFound), \<^verbatim>\<open>ValueError\<close> (InvalidIndex) or \<^verbatim>\<open>IndexError\<close> (IndexOutOfRange);
  any other error of the walk passes through a default untouched, as does a value; and
  without a default every error of the walk reaches the caller.
\<close>

theorem get_default_suppression:
  assumes "key \<noteq> []"
  shows "((\<forall>d. fst (get e self (Some key) (Some d)) = Inr d) \<longleftrightarrow>
            underscore_get self key \<in> {Inl KeyError, Inl ValueError, Inl IndexError})
       \<and> get e self (Some key) (Some d) =
            ((case underscore_get self key of
                Inr v \<Rightarrow> Inr v
              | Inl err \<Rightarrow> if err \<in> {KeyError, ValueError, IndexError} then Inr d else Inl err), self)
       \<and> get e self (Some key) None = (underscore_get self key, self)"
proof -
  have other: "\<exists>d. d \<noteq> v" for v :: pyval
    by (cases v) (auto intro: exI [of _ VNone] exI [of _ "VInt 0"])
  show ?thesis
  proof (cases "underscore_get self key")
    case (Inl err)
    have "Inl err \<noteq> (Inr d' :: error + pyval)" for d' by simp
    with Inl assms show ?thesis
      by (auto simp: get_def)
  next
    case (Inr v)
    obtain d' where "d' \<noteq> v" using other by blast
    with Inr assms show ?thesis
      by (auto simp: get_def)
  qed
qed

lemma example_walks:
  "underscore_get (store_of (VDict [(''a'', VDict [(''b'', VList [VInt 1, VInt 2])])])) ''a.b.5''
     = Inl IndexError"
  "underscore_get (store_of (VDict [(''a'', VDict [(''b'', VList [VInt 1, VInt 2])])])) ''a.b.1''
     = Inr (VInt 2)"
  by (simp_all add: underscore_get_def store_of_def py_int_digit seq_index_def)

theorem get_default_suppression_witness:
  "get empty_fs (store_of (VDict [(''a'', VDict [(''b'', VList [VInt 1, VInt 2])])]))
       (Some ''a.b.5'') (Some (VInt (- 1)))
     = (Inr (VInt (- 1)), store_of (VDict [(''a'', VDict [(''b'', VList [VInt 1, VInt 2])])]))
   \<and> get empty_fs (store_of (VDict [(''a'', VDict [(''b'', VList [VInt 1, VInt 2])])]))
       (Some ''a.b.5'') None
     = (Inl IndexError, store_of (VDict [(''a'', VDict [(''b'', VList [VInt 1, VInt 2])])]))"
  using get_default_suppression [of "''a.b.5''" empty_fs
      "store_of (VDict [(''a'', VDict [(''b'', VList [VInt 1, VInt 2])])])" "VInt (- 1)"]
  by (simp add: example_walks)

text \<open>
  Claim C9. \<^verbatim>\<open>get\<close> leaves the store as it found it, for every key (absent, empty or
  not) and default; with an absent or empty key it returns the whole configuration.
\<close>

theorem get_frame:
  "snd (get e self key dflt) = self
   \<and> fst (get e self None dflt) = Inr (configuration_data self)
   \<and> fst (get e self (Some []) dflt) = Inr (configuration_data self)"
  by (auto simp: get_def export_def HANDLER_MAP_def handler_dump_def
           split: sum.splits option.splits)

theorem get_frame_witness:
  "snd (get empty_fs (store_of (VDict [(''a'', VInt 1)])) (Some ''a'') None)
     = store_of (VDict [(''a'', VInt 1)])"
  using get_frame [of empty_fs "store_of (VDict [(''a'', VInt 1)])" "Some ''a''" None]
  by simp

section \<open>Writing: add\<close>

text \<open>On a fresh empty dict the loop creates every chunk and never fails.\<close>

lemma add_loop_fresh: "add_loop k v r cs ike (VDict []) = (None, nest cs k v)"
  by (induction cs) (simp_all add: add_target_def setitem_def getitem_def store_def)

lemma add_loop_vivify:
  "getitem t c = Inl KeyError \<Longrightarrow> add_loop k v r (c # cs) ike t = (None, store t c (nest cs k v))"
  by (simp add: add_loop_fresh)

lemma mappings_along_Mapping: "mappings_along t cs \<Longrightarrow> \<exists>kvs. t = VDict kvs"
  by (cases cs; cases t) simp_all

lemma add_target_Mapping:
  "fst (add_target k v True ike (VDict kvs)) = None"
  "fst (add_target k v False ike (VDict kvs)) \<in> {None, Some (RuntimeError (''Key '' @ k @ '' already exist''))}"
  by (auto simp: add_target_def setitem_def getitem_def split: option.splits pyval.splits)

lemma add_loop_no_traversal_failure:
  "mappings_along t cs \<Longrightarrow>
     fst (add_loop k v r cs ike t)
       \<in> (if r then {None} else {None, Some (RuntimeError (''Key '' @ k @ '' already exist''))})"
proof (induction cs arbitrary: t ike)
  case Nil
  then obtain kvs where "t = VDict kvs" by (cases t) simp_all
  then show ?case using add_target_Mapping [of k v ike kvs] by (cases r) simp_all
next
  case (Cons c cs)
  from Cons.prems obtain kvs where t: "t = VDict kvs" by (cases t) simp_all
  show ?case
  proof (cases "map_of kvs c")
    case None
    then show ?thesis using t by (simp add: getitem_def add_loop_fresh)
  next
    case (Some sub)
    with Cons.prems t have sub: "mappings_along sub cs" by simp
    then obtain kvs' where sub': "sub = VDict kvs'" using mappings_along_Mapping by blast
    from Cons.IH [OF sub] Some t sub' show ?thesis
      by (cases r) (simp_all add: getitem_def contains_def case_prod_unfold)
  qed
qed

lemma add_target_success:
  "add_target k v r ike t = (None, t') \<Longrightarrow> \<exists>kvs. t' = VDict kvs \<and> map_of kvs k \<noteq> None"
  by (cases t)
     (auto simp: add_target_def setitem_def getitem_def store_def update_conv'
           split: if_splits option.splits pyval.splits)

lemma add_loop_success:
  "add_loop k v r cs ike t = (None, t') \<Longrightarrow>
     \<exists>kvs. get_loop t' cs = Inr (VDict kvs) \<and> map_of kvs k \<noteq> None"
proof (induction cs arbitrary: t t' ike)
  case Nil
  then show ?case using add_target_success by simp
next
  case (Cons c cs)
  show ?case
  proof (cases t)
    case (VDict kvs)
    with Cons.prems obtain sub ike' sub' where
      rec: "add_loop k v r cs ike' sub = (None, sub')" and t': "t' = store t c sub'"
      by (auto simp: getitem_def split: option.splits if_splits sum.splits prod.splits)
    from Cons.IH [OF rec] VDict t' show ?thesis
      by (simp add: store_def update_conv')
  qed (use Cons.prems in \<open>simp_all add: getitem_def\<close>)
qed

lemma add_multi:
  "1 < length (split_dot key) \<Longrightarrow>
     add self key v r =
       (fst (add_loop (last (split_dot key)) v r (butlast (split_dot key)) False (configuration_data self)),
        self\<lparr>configuration_data :=
          snd (add_loop (last (split_dot key)) v r (butlast (split_dot key)) False (configuration_data self))\<rparr>)"
  by (cases "split_dot key") (simp_all add: add_def Let_def)

text \<open>
  Claim C4, as stated, fails: the walk of \<^verbatim>\<open>add\<close> over the container path creates a dict
  only where a key is missing (\<^verbatim>\<open>KeyError\<close>); where a key of the path holds a
  scalar, \<^verbatim>\<open>new_key in current_data[chunk]\<close> raises \<^verbatim>\<open>TypeError\<close>.
\<close>

theorem add_scalar_intermediate_counterexample:
  "add (store_of (VDict [(''x'', VInt 1)])) ''x.y.z'' (VInt 5) False
     = (Some TypeError, store_of (VDict [(''x'', VInt 1)]))"
proof -
  have "split_dot ''x.y.z'' = [''x'', ''y'', ''z'']" by simp
  then show ?thesis
    by (simp add: add_def store_of_def getitem_def contains_def)
qed

text \<open>
  Claim C4, amended. For a multi-segment path whose existing nodes along the container
  path are all Mappings, the walk of \<^verbatim>\<open>add\<close> never fails: with replace the call
  succeeds, without it the only possible error is the duplicate-key error of the last
  step. At any point of the walk a missing key receives a new Mapping in place, which
  the rest of the path fills. After a successful call the container path leads to a
  Mapping that holds the target key. \<^verbatim>\<open>add("x.y.z", 5)\<close> on the empty tree gives exactly
  \<^verbatim>\<open>{"x": {"y": {"z": 5}}}\<close>.
\<close>

theorem add_auto_vivification:
  "(1 < length (split_dot key)
      \<and> mappings_along (configuration_data self) (butlast (split_dot key)) \<longrightarrow>
        fst (add self key v True) = None
      \<and> fst (add self key v False)
          \<in> {None, Some (RuntimeError (''Key '' @ last (split_dot key) @ '' already exist''))})
   \<and> (getitem t c = Inl KeyError \<longrightarrow>
        add_loop k v r (c # cs) ike t = (None, store t c (nest cs k v)))
   \<and> (1 < length (split_dot key) \<and> fst (add self key v r) = None \<longrightarrow>
        (\<exists>kvs. get_loop (configuration_data (snd (add self key v r))) (butlast (split_dot key))
                 = Inr (VDict kvs)
             \<and> map_of kvs (last (split_dot key)) \<noteq> None))
   \<and> add (store_of (VDict [])) ''x.y.z'' (VInt 5) False
       = (None, store_of (VDict [(''x'', VDict [(''y'', VDict [(''z'', VInt 5)])])]))"
proof (intro conjI impI)
  assume a: "1 < length (split_dot key)
      \<and> mappings_along (configuration_data self) (butlast (split_dot key))"
  show "fst (add self key v True) = None"
    using a add_loop_no_traversal_failure [of "configuration_data self" "butlast (split_dot key)"
        "last (split_dot key)" v True False]
    by (simp add: add_multi)
  show "fst (add self key v False)
          \<in> {None, Some (RuntimeError (''Key '' @ last (split_dot key) @ '' already exist''))}"
    using a add_loop_no_traversal_failure [of "configuration_data self" "butlast (split_dot key)"
        "last (split_dot key)" v False False]
    by (simp add: add_multi)
next
  assume "getitem t c = Inl KeyError"
  then show "add_loop k v r (c # cs) ike t = (None, store t c (nest cs k v))"
    by (rule add_loop_vivify)
next
  assume a: "1 < length (split_dot key) \<and> fst (add self key v r) = None"
  let ?res = "add_loop (last (split_dot key)) v r (butlast (split_dot key)) False
                (configuration_data self)"
  from a have m: "1 < length (split_dot key)" and ok: "fst (add self key v r) = None"
    by simp_all
  from ok have "fst ?res = None"
    unfolding add_multi [OF m] by simp
  then have "?res = (None, snd ?res)"
    by (simp add: prod_eq_iff)
  from add_loop_success [OF this]
  show "\<exists>kvs. get_loop (configuration_data (snd (add self key v r))) (butlast (split_dot key))
                 = Inr (VDict kvs)
             \<and> map_of kvs (last (split_dot key)) \<noteq> None"
    unfolding add_multi [OF m] by simp
next
  have "split_dot ''x.y.z'' = [''x'', ''y'', ''z'']" by simp
  then show "add (store_of (VDict [])) ''x.y.z'' (VInt 5) False
       = (None, store_of (VDict [(''x'', VDict [(''y'', VDict [(''z'', VInt 5)])])]))"
    by (simp add: add_def store_of_def getitem_def add_loop_fresh store_def)
qed

theorem add_auto_vivification_witness:
  "fst (add (store_of (VDict [(''x'', VDict [])])) ''x.y.z'' (VInt 5) False) = None
   \<and> add_loop ''z'' (VInt 5) False [''x'', ''y''] False (VDict [])
       = (None, VDict [(''x'', VDict [(''y'', VDict [(''z'', VInt 5)])])])"
proof -
  have k: "split_dot ''x.y.z'' = [''x'', ''y'', ''z'']" by simp
  have e: "add (store_of (VDict [(''x'', VDict [])])) ''x.y.z'' (VInt 5) False
       = (None, store_of (VDict [(''x'', VDict [(''y'', VDict [(''z'', VInt 5)])])]))"
    by (simp add: add_def store_of_def getitem_def add_loop_fresh store_def k contains_def)
  show ?thesis
    using add_auto_vivification [where key = "''x.y.z''"
        and self = "store_of (VDict [(''x'', VDict [])])" and v = "VInt 5" and r = False
        and t = "VDict []" and c = "''x''" and k = "''z''" and cs = "[''y'']" and ike = False]
    by (simp add: e getitem_def store_def)
qed

subsection \<open>Reading back what add wrote\<close>

lemma get_loop_empty_dict: "get_loop (VDict []) (cs @ [k]) = Inl KeyError"
  by (cases cs) simp_all

lemma add_target_then_get:
  assumes "add_target k v False ike t = (None, t')"
    and "ike \<or> (case getitem t k of Inr old \<Rightarrow> is_list old | Inl _ \<Rightarrow> True)"
  shows "get_loop t' [k]
           = Inr (case get_loop t [k] of Inr (VList xs) \<Rightarrow> VList (xs @ [v]) | _ \<Rightarrow> v)"
proof (cases t)
  case (VDict kvs)
  with assms show ?thesis
    by (auto simp: add_target_def setitem_def getitem_def store_def update_conv'
             split: option.splits pyval.splits if_splits)
qed (use assms in \<open>simp_all add: add_target_def getitem_def\<close>)

lemma contains_covers_target:
  "contains sub k = Inr b \<Longrightarrow> b \<or> (case getitem sub k of Inr old \<Rightarrow> is_list old | Inl _ \<Rightarrow> True)"
  by (cases sub) (auto simp: contains_def getitem_def split: option.splits)

lemma add_loop_then_get:
  assumes "add_loop k v False cs ike t = (None, t')"
    and "cs = [] \<Longrightarrow> ike \<or> (case getitem t k of Inr old \<Rightarrow> is_list old | Inl _ \<Rightarrow> True)"
  shows "get_loop t' (cs @ [k])
           = Inr (case get_loop t (cs @ [k]) of Inr (VList xs) \<Rightarrow> VList (xs @ [v]) | _ \<Rightarrow> v)"
  using assms
proof (induction cs arbitrary: t t' ike)
  case Nil
  then show ?case using add_target_then_get by simp
next
  case (Cons c cs)
  show ?case
  proof (cases t)
    case (VDict kvs)
    show ?thesis
    proof (cases "map_of kvs c")
      case None
      with Cons.prems(1) VDict obtain sub' where
        rec: "add_loop k v False cs ike (VDict []) = (None, sub')" and t': "t' = store t c sub'"
        by (auto simp: getitem_def split: prod.splits)
      have "get_loop sub' (cs @ [k])
              = Inr (case get_loop (VDict []) (cs @ [k]) of
                       Inr (VList xs) \<Rightarrow> VList (xs @ [v]) | _ \<Rightarrow> v)"
        by (rule Cons.IH [OF rec]) (simp add: getitem_def)
      with None VDict t' show ?thesis
        by (simp add: store_def update_conv' get_loop_empty_dict)
    next
      case (Some sub)
      with Cons.prems(1) VDict obtain b sub' where
        b: "contains sub k = Inr b" and
        rec: "add_loop k v False cs (ike \<or> b) sub = (None, sub')" and t': "t' = store t c sub'"
        by (auto simp: getitem_def split: prod.splits sum.splits)
      have "get_loop sub' (cs @ [k])
              = Inr (case get_loop sub (cs @ [k]) of
                       Inr (VList xs) \<Rightarrow> VList (xs @ [v]) | _ \<Rightarrow> v)"
        using contains_covers_target [OF b] by (intro Cons.IH [OF rec]) blast
      with Some VDict t' show ?thesis
        by (simp add: store_def update_conv')
    qed
  qed (use Cons.prems in \<open>simp_all add: getitem_def\<close>)
qed

lemma add_single:
  "length (split_dot key) \<le> 1 \<Longrightarrow>
     add self key v r =
       (fst (add_loop key v r [] False (configuration_data self)),
        self\<lparr>configuration_data := snd (add_loop key v r [] False (configuration_data self))\<rparr>)
     \<and> split_dot key = [key]"
proof -
  assume a: "length (split_dot key) \<le> 1"
  have no_dot: "length (split_dot s) \<le> 1 \<Longrightarrow> split_dot s = [s]" for s
    by (induction s) (auto split: list.splits if_splits simp: split_dot_not_Nil)
  from no_dot [OF a] show ?thesis by (simp add: add_def Let_def)
qed


lemma add_target_needs_dict:
  "add_target k v r ike t = (None, t') \<Longrightarrow> \<exists>kvs. t = VDict kvs"
  by (cases t) (auto simp: add_target_def setitem_def getitem_def split: if_splits)

lemma get_loop_dict_single: "get_loop (VDict kvs) [k] = getitem (VDict kvs) k"
  by (simp add: getitem_def split: option.splits)

text \<open>
  Claim C7, as stated, fails for the empty path: \<^verbatim>\<open>add("", v)\<close> stores \<open>v\<close> under the
  empty key, and \<^verbatim>\<open>get("")\<close> returns the whole configuration, not \<open>v\<close>.
\<close>

theorem add_empty_path_counterexample:
  "add (store_of (VDict [])) [] (VInt 5) False = (None, store_of (VDict [([], VInt 5)]))
   \<and> get empty_fs (store_of (VDict [([], VInt 5)])) (Some []) None
       = (Inr (VDict [([], VInt 5)]), store_of (VDict [([], VInt 5)]))"
  by (simp add: add_def store_of_def add_target_def getitem_def setitem_def get_def export_def
      HANDLER_MAP_def handler_dump_def)

text \<open>
  Claim C7, amended. Let \<^verbatim>\<open>add(p, v)\<close> without replace succeed on a non-empty path
  \<open>p\<close> that has more than one segment, or whose single segment was absent from the
  top-level Mapping or held a list there. Then \<^verbatim>\<open>get(p)\<close> returns \<open>v\<close>, except when the
  value at \<open>p\<close> before the call was a list: then it returns that list with \<open>v\<close>
  appended. (A single-segment path whose key holds a value that is not a list is left
  out: there \<^verbatim>\<open>add\<close> returns without an error and without a change.)
\<close>

theorem add_then_get:
  assumes "key \<noteq> []" and "add self key v False = (None, self')"
    and "1 < length (split_dot key)
         \<or> (case underscore_get self key of Inr old \<Rightarrow> is_list old | Inl _ \<Rightarrow> True)"
  shows "get e self' (Some key) None
           = (Inr (case underscore_get self key of
                     Inr (VList xs) \<Rightarrow> VList (xs @ [v]) | _ \<Rightarrow> v), self')"
proof -
  have walk: "underscore_get self' key
                = Inr (case underscore_get self key of
                         Inr (VList xs) \<Rightarrow> VList (xs @ [v]) | _ \<Rightarrow> v)"
  proof (cases "1 < length (split_dot key)")
    case True
    let ?k = "last (split_dot key)" and ?cs = "butlast (split_dot key)"
    let ?res = "add_loop ?k v False ?cs False (configuration_data self)"
    from assms(2) have res: "?res = (None, configuration_data self')" and
      "self' = self\<lparr>configuration_data := snd ?res\<rparr>"
      unfolding add_multi [OF True] by (auto simp: prod_eq_iff)
    from True have ne: "?cs \<noteq> []" by (cases "split_dot key" rule: rev_cases) auto
    have keys: "?cs @ [?k] = split_dot key"
      by (simp add: split_dot_not_Nil)
    from add_loop_then_get [OF res] ne keys show ?thesis
      by (simp add: underscore_get_def)
  next
    case False
    then have le: "length (split_dot key) \<le> 1" by simp
    let ?res = "add_loop key v False [] False (configuration_data self)"
    from add_single [OF le, of self v False]
    have keys: "split_dot key = [key]" and
      unf: "add self key v False = (fst ?res, self\<lparr>configuration_data := snd ?res\<rparr>)"
      by simp_all
    from assms(2) have res: "?res = (None, configuration_data self')"
      unfolding unf by (auto simp: prod_eq_iff)
    then obtain kvs where d: "configuration_data self = VDict kvs"
      using add_target_needs_dict by fastforce
    from assms(3) False d keys
    have "case getitem (configuration_data self) key of Inr old \<Rightarrow> is_list old | Inl _ \<Rightarrow> True"
      by (simp add: underscore_get_def get_loop_dict_single del: get_loop.simps)
    with add_loop_then_get [OF res] keys show ?thesis
      by (simp add: underscore_get_def)
  qed
  with assms(1) show ?thesis by (simp add: get_def)
qed

theorem add_then_get_witness:
  "get empty_fs (store_of (VDict [(''a'', VDict [(''b'', VList [VInt 1, VInt 2, VInt 3])])]))
       (Some ''a.b'') None
     = (Inr (VList [VInt 1, VInt 2, VInt 3]),
        store_of (VDict [(''a'', VDict [(''b'', VList [VInt 1, VInt 2, VInt 3])])]))"
proof -
  have k: "split_dot ''a.b'' = [''a'', ''b'']" by simp
  have a: "add (store_of (VDict [(''a'', VDict [(''b'', VList [VInt 1, VInt 2])])])) ''a.b''
             (VInt 3) False
           = (None, store_of (VDict [(''a'', VDict [(''b'', VList [VInt 1, VInt 2, VInt 3])])]))"
    by (simp add: add_def store_of_def k getitem_def contains_def add_target_def store_def)
  have u: "underscore_get (store_of (VDict [(''a'', VDict [(''b'', VList [VInt 1, VInt 2])])]))
             ''a.b'' = Inr (VList [VInt 1, VInt 2])"
    by (simp add: underscore_get_def store_of_def k)
  show ?thesis
    using add_then_get [OF _ a, of empty_fs] by (simp add: k u)
qed

subsection \<open>Duplicate keys\<close>

text \<open>
  On a path of several segments through Mappings, \<^verbatim>\<open>add\<close> without replace raises the
  duplicate-key error exactly when the target exists and is not a list.
\<close>

lemma add_target_duplicate_iff:
  assumes "\<And>old. map_of kvs k = Some old \<Longrightarrow> ike"
  shows "fst (add_target k v False ike (VDict kvs)) = Some (RuntimeError (''Key '' @ k @ '' already exist''))
           \<longleftrightarrow> (\<exists>old. map_of kvs k = Some old \<and> \<not> is_list old)"
proof (cases "map_of kvs k")
  case None
  then show ?thesis by (simp add: add_target_def getitem_def setitem_def)
next
  case (Some old)
  with assms have ike by simp
  with Some show ?thesis
    by (cases old) (simp_all add: add_target_def getitem_def)
qed

lemma add_loop_duplicate_iff:
  assumes "mappings_along t cs"
    and "cs = [] \<Longrightarrow> getitem t k \<noteq> Inl KeyError \<Longrightarrow> ike"
  shows "fst (add_loop k v False cs ike t) = Some (RuntimeError (''Key '' @ k @ '' already exist''))
           \<longleftrightarrow> (\<exists>old. get_loop t (cs @ [k]) = Inr old \<and> \<not> is_list old)"
  using assms
proof (induction cs arbitrary: t ike)
  case Nil
  then obtain kvs where t: "t = VDict kvs" by (cases t) simp_all
  have "ike" if "map_of kvs k = Some old" for old
    using Nil.prems(2) that t by (simp add: getitem_def)
  from add_target_duplicate_iff [of kvs k ike v, OF this] t show ?case
    by (auto split: option.splits)
next
  case (Cons c cs)
  from Cons.prems(1) obtain kvs where t: "t = VDict kvs" by (cases t) simp_all
  show ?case
  proof (cases "map_of kvs c")
    case None
    with t show ?thesis by (simp add: getitem_def add_loop_fresh)
  next
    case (Some sub)
    with Cons.prems(1) t have sub: "mappings_along sub cs" by simp
    then obtain kvs' where sub': "sub = VDict kvs'" using mappings_along_Mapping by blast
    have "fst (add_loop k v False cs (ike \<or> map_of kvs' k \<noteq> None) sub)
            = Some (RuntimeError (''Key '' @ k @ '' already exist''))
          \<longleftrightarrow> (\<exists>old. get_loop sub (cs @ [k]) = Inr old \<and> \<not> is_list old)"
      by (rule Cons.IH [OF sub]) (auto simp: sub' getitem_def split: option.splits)
    with Some t sub' show ?thesis
      by (simp add: getitem_def contains_def case_prod_unfold)
  qed
qed

lemma add_duplicate_iff:
  assumes "1 < length (split_dot key)"
    and "mappings_along (configuration_data self) (butlast (split_dot key))"
  shows "fst (add self key v False)
           = Some (RuntimeError (''Key '' @ last (split_dot key) @ '' already exist''))
         \<longleftrightarrow> (\<exists>old. underscore_get self key = Inr old \<and> \<not> is_list old)"
proof -
  from assms(1) have ne: "butlast (split_dot key) \<noteq> []"
    by (cases "split_dot key" rule: rev_cases) auto
  have keys: "butlast (split_dot key) @ [last (split_dot key)] = split_dot key"
    by (simp add: split_dot_not_Nil)
  from add_loop_duplicate_iff [OF assms(2), of "last (split_dot key)" False v] ne keys
  show ?thesis
    unfolding add_multi [OF assms(1)] by (simp add: underscore_get_def)
qed

text \<open>
  Claim C2 at a top-level key. The flag \<^verbatim>\<open>is_key_exist\<close> is set only inside the loop
  over the container path, which a single-segment key never enters: on \<^verbatim>\<open>{"a": 1}\<close>,
  \<^verbatim>\<open>add("a", 5)\<close> raises nothing and changes nothing, where the claim (and the message
  "Key ... already exist" of the source) call for the duplicate-key error.
\<close>

theorem add_top_level_existing_key:
  "add (store_of (VDict [(''a'', VInt 1)])) ''a'' (VInt 5) False
     = (None, store_of (VDict [(''a'', VInt 1)]))"
  by (simp add: add_def store_of_def add_target_def getitem_def)

section \<open>upsert\<close>

text \<open>
  Claim C10, as stated, fails on a tree whose root is not a Mapping (a list loaded from
  a file, say): \<^verbatim>\<open>upsert\<close> calls the dict method \<^verbatim>\<open>update\<close>, which a list does not have.
\<close>

theorem upsert_list_root_counterexample:
  "upsert (store_of (VList [VInt 1])) ''k'' (VInt 2)
     = (Some AttributeError, store_of (VList [VInt 1]))"
  by (simp add: upsert_def store_of_def)

text \<open>
  Claim C10, amended. On a tree whose root is a Mapping, \<^verbatim>\<open>upsert(key, value)\<close> never
  fails and returns the store with the top-level entry \<open>key\<close> set to \<open>value\<close>, whatever
  was there (a list is overwritten, not appended to); every other top-level key keeps
  its value and the handler is untouched.
\<close>

theorem upsert_sets_key:
  assumes "configuration_data self = VDict kvs"
  shows "upsert self key v = (None, self\<lparr>configuration_data := VDict (AList.update key v kvs)\<rparr>)
       \<and> getitem (VDict (AList.update key v kvs)) key = Inr v
       \<and> (\<forall>k. k \<noteq> key \<longrightarrow> getitem (VDict (AList.update key v kvs)) k = getitem (VDict kvs) k)"
  using assms by (simp add: upsert_def getitem_def update_conv')

theorem upsert_sets_key_witness:
  "upsert (store_of (VDict [(''a'', VList [VInt 1]), (''b'', VInt 2)])) ''a'' (VInt 3)
     = (None, store_of (VDict [(''a'', VInt 3), (''b'', VInt 2)]))
   \<and> getitem (VDict [(''a'', VInt 3), (''b'', VInt 2)]) ''b'' = Inr (VInt 2)"
  using upsert_sets_key [of "store_of (VDict [(''a'', VList [VInt 1]), (''b'', VInt 2)])"
      "[(''a'', VList [VInt 1]), (''b'', VInt 2)]" "''a''" "VInt 3"]
  by (simp add: store_of_def getitem_def)

section \<open>remove\<close>

text \<open>
  Claim C5 at a top-level key. With a single segment \<^verbatim>\<open>keys\<close> keeps its only element,
  so the loop of \<^verbatim>\<open>remove\<close> descends into the target itself before the deletion: on
  \<^verbatim>\<open>{"a": 1}\<close>, \<^verbatim>\<open>remove("a")\<close> raises \<^verbatim>\<open>TypeError\<close> and the key stays, where the claim
  calls for the key to be deleted from its Mapping.
\<close>

theorem remove_top_level_key:
  "remove (store_of (VDict [(''a'', VInt 1)])) ''a'' None
     = (Some TypeError, store_of (VDict [(''a'', VInt 1)]))"
  by (simp add: remove_def store_of_def remove_target_def getitem_def delitem_def store_def)

section \<open>import_config\<close>

text \<open>
  Claim C8, as stated, fails for a string with the extension \<^verbatim>\<open>py\<close>: it names no
  existing file, no file of the same name with \<^verbatim>\<open>.py\<close> appended exists and no handler
  is set, yet \<^verbatim>\<open>_is_python_file\<close> accepts it by its extension alone, and the call fails
  with \<^verbatim>\<open>IOError\<close> (file not found), the scripted-source handler already selected.
\<close>

theorem import_py_extension_counterexample:
  "\<not> isfile empty_fs ''foo.py'' \<and> \<not> isfile empty_fs ''foo.py.py''
   \<and> handler (store_of (VDict [])) = None
   \<and> import_config empty_fs (store_of (VDict [])) (Raw ''foo.py'')
       = (Some IOError, \<lparr>configuration_data = VDict [], handler = Some PyFileHandler\<rparr>)"
  by (simp add: import_config_def empty_fs_def store_of_def is_python_file_def splitext_ext_def
      endswith_def)

text \<open>
  Claim C8, amended. \<^verbatim>\<open>import_config\<close> of a native dict selects the dict handler and
  installs the dict as the configuration tree, whatever the environment's parsers do.
  \<^verbatim>\<open>import_config\<close> of a string that names no existing file, has no file of the same
  name with \<^verbatim>\<open>.py\<close> appended, does not have the extension \<^verbatim>\<open>py\<close>, on a store with
  no handler, fails with the runtime error "Unable to determine handler" and leaves the
  store as it was.
\<close>

theorem import_config_dispatch:
  "import_config e self (Native kvs)
     = (None, self\<lparr>handler := Some DictHandler, configuration_data := VDict kvs\<rparr>)
   \<and> (\<not> isfile e s \<and> \<not> isfile e (s @ ''.py'') \<and> splitext_ext s \<noteq> ''py'' \<and> handler self = None
        \<longrightarrow> import_config e self (Raw s)
             = (Some (RuntimeError ''Unable to determine handler''), self))"
  by (simp add: import_config_def load_into_def handler_load_def is_python_file_def)

theorem import_config_dispatch_witness:
  "import_config empty_fs (store_of (VDict [])) (Native [(''a'', VInt 1)])
     = (None, \<lparr>configuration_data = VDict [(''a'', VInt 1)], handler = Some DictHandler\<rparr>)
   \<and> import_config empty_fs (store_of (VDict [])) (Raw ''settings'')
     = (Some (RuntimeError ''Unable to determine handler''), store_of (VDict []))"
  using import_config_dispatch [of empty_fs "store_of (VDict [])" "[(''a'', VInt 1)]" "''settings''"]
  by (simp add: empty_fs_def store_of_def splitext_ext_def)

end
